theory Spec2Isabelle
  imports Complex_Main
begin

section \<open>Weighted K-means with K-means++ seeding (src/kmeans/kmeans.py)\<close>

text \<open>
  The embedding follows the Python/NumPy meaning of the source text. Arrays are lists
  (a matrix is the list of its rows), an exception is the \<open>Inl\<close> branch of a sum, and
  an index outside its array raises, as NumPy's checked indexing does.

  The input arrays hold finite numbers, modelled by exact reals: rounding and overflow
  of float64 are not part of the model. The one place where the code produces
  non-finite values from finite inputs is the division of the weighted mean by a
  cluster's weight sum, which may be zero; centroids therefore range over \<open>fl\<close>, the
  reals extended by the two infinities and NaN, with NumPy's rules for them.

  The process-wide generator \<open>np.random\<close> is library code. Its state is threaded
  explicitly, and its three operations used by the source (\<open>seed\<close>, \<open>randint\<close>,
  \<open>rand\<close>) are a parameter of every function that draws.
\<close>

subsection \<open>Errors and extended floating-point values\<close>

datatype error = ValueError | IndexError | OverflowError

datatype fl = Fin real | PInf | NInf | NaN

fun fl_neg :: "fl \<Rightarrow> fl" where
  "fl_neg (Fin a) = Fin (- a)"
| "fl_neg PInf = NInf"
| "fl_neg NInf = PInf"
| "fl_neg NaN = NaN"

fun fl_add :: "fl \<Rightarrow> fl \<Rightarrow> fl" where
  "fl_add (Fin a) (Fin b) = Fin (a + b)"
| "fl_add NaN _ = NaN"
| "fl_add _ NaN = NaN"
| "fl_add PInf NInf = NaN"
| "fl_add NInf PInf = NaN"
| "fl_add PInf _ = PInf"
| "fl_add _ PInf = PInf"
| "fl_add NInf _ = NInf"
| "fl_add _ NInf = NInf"

definition fl_sub :: "fl \<Rightarrow> fl \<Rightarrow> fl" where
  "fl_sub a b = fl_add a (fl_neg b)"

text \<open>\<open>np.power(x, 2)\<close>\<close>

fun fl_sq :: "fl \<Rightarrow> fl" where
  "fl_sq (Fin a) = Fin (a ^ 2)"
| "fl_sq NaN = NaN"
| "fl_sq _ = PInf"

fun fl_sqrt :: "fl \<Rightarrow> fl" where
  "fl_sqrt (Fin a) = (if a < 0 then NaN else Fin (sqrt a))"
| "fl_sqrt PInf = PInf"
| "fl_sqrt _ = NaN"

definition fl_sum :: "fl list \<Rightarrow> fl" where
  "fl_sum xs = foldl fl_add (Fin 0) xs"

text \<open>Division of two finite numbers under NumPy's array semantics: no exception.\<close>

definition fl_div :: "real \<Rightarrow> real \<Rightarrow> fl" where
  "fl_div a b =
     (if b \<noteq> 0 then Fin (a / b)
      else if a = 0 then NaN
      else if 0 < a then PInf else NInf)"

text \<open>The comparison \<open>a <= b\<close> of two floats: false as soon as one is NaN.\<close>

fun fl_le :: "fl \<Rightarrow> fl \<Rightarrow> bool" where
  "fl_le (Fin a) (Fin b) = (a \<le> b)"
| "fl_le NaN _ = False"
| "fl_le _ NaN = False"
| "fl_le NInf _ = True"
| "fl_le _ PInf = True"
| "fl_le _ _ = False"

text \<open>
  \<open>np.argmin\<close> over one row: the scan keeps the current minimum \<open>mp\<close> and its index,
  replaces them when \<open>not (x >= mp)\<close>, and stops at the first NaN.
\<close>

fun argmin_scan :: "fl \<Rightarrow> nat \<Rightarrow> nat \<Rightarrow> fl list \<Rightarrow> nat" where
  "argmin_scan mp mi i [] = mi"
| "argmin_scan mp mi i (x # xs) =
     (if mp = NaN then mi
      else if \<not> fl_le mp x then argmin_scan x i (Suc i) xs
      else argmin_scan mp mi (Suc i) xs)"

fun argmin_row :: "fl list \<Rightarrow> nat" where
  "argmin_row [] = 0"
| "argmin_row (x # xs) = argmin_scan x 0 1 xs"

definition np_argmin :: "fl list \<Rightarrow> error + nat" where
  "np_argmin xs = (if xs = [] then Inl ValueError else Inr (argmin_row xs))"

definition np_argmin_axis1 :: "fl list list \<Rightarrow> error + nat list" where
  "np_argmin_axis1 M =
     (if list_ex (\<lambda>row. row = []) M then Inl ValueError else Inr (map argmin_row M))"

text \<open>\<open>np.allclose(a, b)\<close> with the default \<open>rtol = 1e-05\<close>, \<open>atol = 1e-08\<close>.\<close>

fun isclose :: "fl \<Rightarrow> fl \<Rightarrow> bool" where
  "isclose (Fin a) (Fin b) = (\<bar>a - b\<bar> \<le> 1 / 10 ^ 8 + (1 / 10 ^ 5) * \<bar>b\<bar>)"
| "isclose PInf PInf = True"
| "isclose NInf NInf = True"
| "isclose _ _ = False"

definition allclose :: "fl list list \<Rightarrow> fl list list \<Rightarrow> bool" where
  "allclose a b = list_all2 (list_all2 isclose) a b"

subsection \<open>Array helpers\<close>

text \<open>Elementwise product of two vectors with NumPy's broadcasting of a length-1 operand.\<close>

definition broadcast_mul :: "real list \<Rightarrow> real list \<Rightarrow> error + real list" where
  "broadcast_mul xs ys =
     (if length xs = length ys then Inr (map2 (*) xs ys)
      else if length xs = 1 then Inr (map (\<lambda>y. hd xs * y) ys)
      else if length ys = 1 then Inr (map (\<lambda>x. x * hd ys) xs)
      else Inl ValueError)"

text \<open>\<open>X[idxs]\<close> with an integer index array.\<close>

definition take_rows :: "'a list \<Rightarrow> nat list \<Rightarrow> error + 'a list" where
  "take_rows X idxs =
     (if list_all (\<lambda>i. i < length X) idxs then Inr (map (\<lambda>i. X ! i) idxs)
      else Inl IndexError)"

text \<open>\<open>a[mask]\<close> with a boolean mask, which must have the length of \<open>a\<close>.\<close>

definition bool_index :: "'a list \<Rightarrow> bool list \<Rightarrow> error + 'a list" where
  "bool_index xs bmask =
     (if length xs \<noteq> length bmask then Inl IndexError
      else Inr (map fst (filter snd (zip xs bmask))))"

definition n_features :: "real list list \<Rightarrow> nat" where
  "n_features X = (case X of [] \<Rightarrow> 0 | row # _ \<Rightarrow> length row)"

definition ones_like :: "real list \<Rightarrow> real list" where
  "ones_like xs = map (\<lambda>_. 1) xs"

definition all_zero :: "real list \<Rightarrow> bool" where
  "all_zero xs = list_all (\<lambda>w. w = 0) xs"

definition clip01 :: "real \<Rightarrow> real" where
  "clip01 x = min (max x 0) 1"

text \<open>
  \<open>d ** alpha\<close> for a distance \<open>d \<ge> 0\<close> and an exponent \<open>alpha \<ge> 0\<close>. (For a negative
  exponent NumPy gives \<open>inf\<close> at distance zero, which is outside the finite scores of
  the model; the spec takes the exponent positive.)
\<close>

definition power_alpha :: "real \<Rightarrow> real \<Rightarrow> real" where
  "power_alpha alpha d = (if alpha = 0 then 1 else d powr alpha)"

subsection \<open>The random generator\<close>

record 'g rng =
  rng_seed :: "int \<Rightarrow> 'g"
  rng_randint :: "nat \<Rightarrow> 'g \<Rightarrow> nat \<times> 'g"
  rng_rand :: "'g \<Rightarrow> real \<times> 'g"

text \<open>
  What the library promises: \<open>randint(n)\<close> lies in \<open>[0, n)\<close> and \<open>rand()\<close> in
  \<open>[0, 1)\<close>.
\<close>

definition rng_ok :: "'g rng \<Rightarrow> bool" where
  "rng_ok G \<longleftrightarrow>
     (\<forall>n g. 0 < n \<longrightarrow> fst (rng_randint G n g) < n) \<and>
     (\<forall>g. 0 \<le> fst (rng_rand G g) \<and> fst (rng_rand G g) < 1)"

text \<open>\<open>np.random.randint(n)\<close> and \<open>np.random.randint(0, n)\<close>: an empty range raises.\<close>

definition randint :: "'g rng \<Rightarrow> nat \<Rightarrow> 'g \<Rightarrow> error + (nat \<times> 'g)" where
  "randint G n g = (if n = 0 then Inl ValueError else Inr (rng_randint G n g))"

text \<open>\<open>np.random.rand(size)\<close>\<close>

fun rand_n :: "'g rng \<Rightarrow> nat \<Rightarrow> 'g \<Rightarrow> real list \<times> 'g" where
  "rand_n G 0 g = ([], g)"
| "rand_n G (Suc n) g =
     (case rng_rand G g of (r, g1) \<Rightarrow>
        (case rand_n G n g1 of (rs, g2) \<Rightarrow> (r # rs, g2)))"

text \<open>
  A generator for concrete runs: its state counts the draws made so far, the
  integer draw over \<open>n\<close> at state \<open>g\<close> is \<open>g mod n\<close>, every uniform draw is \<open>1/2\<close>.
\<close>

definition counter_rng :: "nat rng" where
  "counter_rng =
     \<lparr>rng_seed = (\<lambda>s. nat s),
      rng_randint = (\<lambda>n g. (g mod n, Suc g)),
      rng_rand = (\<lambda>g. (1 / 2, Suc g))\<rparr>"

subsection \<open>\<open>_numba_rand_choice\<close>\<close>

fun cumsum_from :: "real \<Rightarrow> real list \<Rightarrow> real list" where
  "cumsum_from acc [] = []"
| "cumsum_from acc (x # xs) = (acc + x) # cumsum_from (acc + x) xs"

definition cumsum :: "real list \<Rightarrow> real list" where
  "cumsum xs = cumsum_from 0 xs"

text \<open>
  \<open>np.searchsorted(a, v)\<close> (side left) on a sorted array: the first index \<open>i\<close> with
  \<open>v \<le> a[i]\<close>, or \<open>len(a)\<close> if there is none.
\<close>

definition searchsorted :: "real list \<Rightarrow> real \<Rightarrow> nat" where
  "searchsorted a v = length (takeWhile (\<lambda>c. c < v) a)"

definition numba_rand_choice :: "'g rng \<Rightarrow> nat \<Rightarrow> real list \<Rightarrow> 'g \<Rightarrow> nat list \<times> 'g" where
  "numba_rand_choice G sz probabilities g =
     (let p_cumsum = cumsum probabilities in
      case rand_n G sz g of (rands, g') \<Rightarrow> (map (searchsorted p_cumsum) rands, g'))"

subsection \<open>The distance engine\<close>

definition distance_from_point :: "real list list \<Rightarrow> real list \<Rightarrow> real list" where
  "distance_from_point X point =
     map (\<lambda>row. sqrt (sum_list (map (\<lambda>d. d ^ 2) (map2 (-) row point)))) X"

text \<open>Column \<open>i\<close> of the result is the distance vector to \<open>points[i]\<close>.\<close>

definition distance_from_points :: "real list list \<Rightarrow> real list list \<Rightarrow> real list list" where
  "distance_from_points X points =
     (let cols = map (distance_from_point X) points in
      map (\<lambda>i. map (\<lambda>col. col ! i) cols) [0..<length X])"

text \<open>The same two functions when the reference points are centroids of the optimizer.\<close>

definition distance_from_point_fl :: "real list list \<Rightarrow> fl list \<Rightarrow> fl list" where
  "distance_from_point_fl X point =
     map (\<lambda>row. fl_sqrt (fl_sum (map fl_sq (map2 (\<lambda>x c. fl_sub (Fin x) c) row point)))) X"

definition distance_from_points_fl :: "real list list \<Rightarrow> fl list list \<Rightarrow> fl list list" where
  "distance_from_points_fl X points =
     (let cols = map (distance_from_point_fl X) points in
      map (\<lambda>i. map (\<lambda>col. col ! i) cols) [0..<length X])"

subsection \<open>The seeder \<open>_kmeans_plusplus\<close>\<close>

text \<open>
  \<open>2 + int(np.log(n_clusters))\<close>: the logarithm of zero is \<open>-inf\<close> and of a negative
  number NaN, which \<open>int\<close> refuses.
\<close>

definition n_local_trials :: "int \<Rightarrow> error + nat" where
  "n_local_trials K =
     (if K = 0 then Inl OverflowError
      else if K < 0 then Inl ValueError
      else Inr (2 + nat \<lfloor>ln (real_of_int K)\<rfloor>))"

text \<open>Lines 79 to 85: the scores turned into the probability vector.\<close>

definition probabilities_of :: "real list \<Rightarrow> real list" where
  "probabilities_of distances_alpha =
     (let da = (if sum_list distances_alpha = 0 then ones_like distances_alpha
                else distances_alpha);
          sum_distances_alpha = sum_list da;
          probabilities = map (\<lambda>a. clip01 (a / sum_distances_alpha)) da
      in map (\<lambda>p. p / sum_list probabilities) probabilities)"

text \<open>
  \<open>np.sum(np.minimum(distances[:, None], _distance_from_points(X, candidates)), axis=0)\<close>
\<close>

definition potentials :: "real list list \<Rightarrow> real list \<Rightarrow> real list list \<Rightarrow> real list" where
  "potentials X distances candidates =
     (let Dm = distance_from_points X candidates in
      map (\<lambda>j. sum_list (map (\<lambda>i. min (distances ! i) (Dm ! i ! j)) [0..<length X]))
        [0..<length candidates])"

text \<open>The state of the seeding loop: centroids, distances, distances_alpha, generator.\<close>

type_synonym 'g seed_state = "real list list \<times> real list \<times> real list \<times> 'g"

definition seed_step ::
  "'g rng \<Rightarrow> real list list \<Rightarrow> real list \<Rightarrow> real \<Rightarrow> nat \<Rightarrow> 'g seed_state \<Rightarrow> nat
     \<Rightarrow> error + 'g seed_state" where
  "seed_step G X weights alpha L st k =
     (case st of (centroids, distances, distances_alpha, g) \<Rightarrow>
      (case numba_rand_choice G L (probabilities_of distances_alpha) g of
         (candidate_idxs, g') \<Rightarrow>
      (case take_rows X candidate_idxs of Inl e \<Rightarrow> Inl e | Inr candidates \<Rightarrow>
      (case np_argmin (map Fin (potentials X distances candidates)) of
         Inl e \<Rightarrow> Inl e | Inr j \<Rightarrow>
      (let best = candidates ! j;
           centroids' = centroids[k := best];
           new_distances = distance_from_point X (centroids' ! k);
           distances' = map2 min distances new_distances
       in case broadcast_mul (map (power_alpha alpha) distances') weights of
            Inl e \<Rightarrow> Inl e
          | Inr da' \<Rightarrow> Inr (centroids', distances', da', g'))))))"

fun seed_loop ::
  "'g rng \<Rightarrow> real list list \<Rightarrow> real list \<Rightarrow> real \<Rightarrow> nat \<Rightarrow> nat list \<Rightarrow> 'g seed_state
     \<Rightarrow> error + 'g seed_state" where
  "seed_loop G X weights alpha L [] st = Inr st"
| "seed_loop G X weights alpha L (k # ks) st =
     (case seed_step G X weights alpha L st k of
        Inl e \<Rightarrow> Inl e
      | Inr st' \<Rightarrow> seed_loop G X weights alpha L ks st')"

definition kmeans_plusplus ::
  "'g rng \<Rightarrow> real list list \<Rightarrow> real list \<Rightarrow> int \<Rightarrow> real \<Rightarrow> 'g
     \<Rightarrow> error + (real list list \<times> 'g)" where
  "kmeans_plusplus G X weights0 n_clusters alpha g =
     (case n_local_trials n_clusters of Inl e \<Rightarrow> Inl e | Inr L \<Rightarrow>
      (let weights = (if all_zero weights0 then ones_like weights0 else weights0);
           centroids = replicate (nat n_clusters) (replicate (n_features X) 0)
       in case randint G (length X) g of Inl e \<Rightarrow> Inl e | Inr (first_idx, g1) \<Rightarrow>
      (let centroids0 = centroids[0 := X ! first_idx];
           distances = distance_from_point X (centroids0 ! 0)
       in case broadcast_mul (map (power_alpha alpha) distances) weights of
            Inl e \<Rightarrow> Inl e
          | Inr distances_alpha \<Rightarrow>
      (case seed_loop G X weights alpha L [1..<nat n_clusters]
              (centroids0, distances, distances_alpha, g1) of
         Inl e \<Rightarrow> Inl e
       | Inr (cs, _, _, g2) \<Rightarrow> Inr (cs, g2)))))"

subsection \<open>The optimizer \<open>kmeans\<close>\<close>

text \<open>Lines 47 to 53: the new centroid of cluster \<open>k\<close>.\<close>

definition new_centroid ::
  "'g rng \<Rightarrow> real list list \<Rightarrow> real list \<Rightarrow> nat list \<Rightarrow> nat \<Rightarrow> 'g \<Rightarrow> error + (fl list \<times> 'g)" where
  "new_centroid G X weights new_labels k g =
     (let bmask = map (\<lambda>l. l = k) new_labels in
      if list_ex (\<lambda>b. b) bmask then
        (case bool_index X bmask of Inl e \<Rightarrow> Inl e | Inr cluster_points \<Rightarrow>
         (case bool_index weights bmask of Inl e \<Rightarrow> Inl e | Inr cluster_weights \<Rightarrow>
            Inr (map (\<lambda>d. fl_div (sum_list (map2 (\<lambda>p w. p ! d * w) cluster_points cluster_weights))
                            (sum_list cluster_weights))
                   [0..<n_features X], g)))
      else
        (case randint G (length X) g of Inl e \<Rightarrow> Inl e
         | Inr (i, g') \<Rightarrow> Inr (map Fin (X ! i), g')))"

text \<open>Lines 46 to 53: the loop over the clusters, writing row \<open>k\<close> of \<open>new_centroids\<close>.\<close>

fun update_loop ::
  "'g rng \<Rightarrow> real list list \<Rightarrow> real list \<Rightarrow> nat list \<Rightarrow> nat list \<Rightarrow> fl list list \<Rightarrow> 'g
     \<Rightarrow> error + (fl list list \<times> 'g)" where
  "update_loop G X weights new_labels [] new_centroids g = Inr (new_centroids, g)"
| "update_loop G X weights new_labels (k # ks) new_centroids g =
     (case new_centroid G X weights new_labels k g of
        Inl e \<Rightarrow> Inl e
      | Inr (row, g') \<Rightarrow> update_loop G X weights new_labels ks (new_centroids[k := row]) g')"

text \<open>
  One pass of the body of the main loop up to the convergence test: the Assign phase and
  the Update phase. The rows of \<open>np.empty_like(centroids)\<close> are all written before they
  are read; the model starts them at the old rows.
\<close>

definition assign_update ::
  "'g rng \<Rightarrow> real list list \<Rightarrow> real list \<Rightarrow> nat \<Rightarrow> fl list list \<Rightarrow> 'g
     \<Rightarrow> error + (nat list \<times> fl list list \<times> 'g)" where
  "assign_update G X weights n_clusters centroids g =
     (case np_argmin_axis1 (distance_from_points_fl X centroids) of
        Inl e \<Rightarrow> Inl e
      | Inr new_labels \<Rightarrow>
     (case update_loop G X weights new_labels [0..<n_clusters] centroids g of
        Inl e \<Rightarrow> Inl e
      | Inr (new_centroids, g') \<Rightarrow> Inr (new_labels, new_centroids, g')))"

text \<open>Lines 42 to 60: the main loop with its \<open>break\<close>, then the \<open>return\<close>.\<close>

fun lloyd ::
  "'g rng \<Rightarrow> real list list \<Rightarrow> real list \<Rightarrow> nat \<Rightarrow> nat \<Rightarrow> fl list list \<Rightarrow> nat list \<Rightarrow> 'g
     \<Rightarrow> error + ((fl list list \<times> nat list) \<times> 'g)" where
  "lloyd G X weights n_clusters 0 centroids labels g = Inr ((centroids, labels), g)"
| "lloyd G X weights n_clusters (Suc n) centroids labels g =
     (case assign_update G X weights n_clusters centroids g of
        Inl e \<Rightarrow> Inl e
      | Inr (new_labels, new_centroids, g') \<Rightarrow>
          if allclose centroids new_centroids then Inr ((centroids, labels), g')
          else lloyd G X weights n_clusters n new_centroids new_labels g')"

text \<open>
  The entry point with the generator state it starts from and the one it leaves behind.
\<close>

definition kmeans_st ::
  "'g rng \<Rightarrow> 'g \<Rightarrow> real list list \<Rightarrow> real list \<Rightarrow> int \<Rightarrow> int \<Rightarrow> real \<Rightarrow> int option
     \<Rightarrow> error + ((fl list list \<times> nat list) \<times> 'g)" where
  "kmeans_st G g X weights0 n_clusters max_iter alpha random_state =
     (let g0 = (case random_state of None \<Rightarrow> g | Some s \<Rightarrow> rng_seed G s);
          n_samples = length X;
          weights = (if all_zero weights0 then ones_like weights0 else weights0)
      in case kmeans_plusplus G X weights n_clusters alpha g0 of
           Inl e \<Rightarrow> Inl e
         | Inr (centroids, g1) \<Rightarrow>
             lloyd G X weights (nat n_clusters) (nat max_iter) (map (map Fin) centroids)
               (replicate n_samples 0) g1)"

text \<open>What the caller receives: the pair \<open>(centroids, labels)\<close>, or the exception.\<close>

definition kmeans ::
  "'g rng \<Rightarrow> 'g \<Rightarrow> real list list \<Rightarrow> real list \<Rightarrow> int \<Rightarrow> int \<Rightarrow> real \<Rightarrow> int option
     \<Rightarrow> error + (fl list list \<times> nat list)" where
  "kmeans G g X weights n_clusters max_iter alpha random_state =
     map_sum id fst (kmeans_st G g X weights n_clusters max_iter alpha random_state)"

subsection \<open>A seeding state with rescaled scores\<close>

text \<open>
  Used to compare two runs of the seeder whose weights differ by a constant factor: the
  scores of the second run are those of the first multiplied by the factor.
\<close>

definition scale_state :: "real \<Rightarrow> 'g seed_state \<Rightarrow> 'g seed_state" where
  "scale_state c st = (case st of (cs, ds, da, g) \<Rightarrow> (cs, ds, map ((*) c) da, g))"

section \<open>Auxiliary facts\<close>

subsection \<open>Evaluating concrete runs\<close>

lemma sqrt_100: "sqrt 100 = 10"
  using real_sqrt_abs[of 10] by simp

lemma floor_ln_2: "\<lfloor>ln (2::real)\<rfloor> = 0"
  using ln_2_less_1 by (simp add: floor_eq_iff)

lemma n_local_trials_1: "n_local_trials 1 = Inr 2"
  by (simp add: n_local_trials_def)

lemma n_local_trials_2: "n_local_trials 2 = Inr 2"
  by (simp add: n_local_trials_def floor_ln_2)

lemmas run_defs =
  kmeans_def kmeans_st_def kmeans_plusplus_def n_local_trials_1 n_local_trials_2
  all_zero_def ones_like_def randint_def counter_rng_def n_features_def
  distance_from_point_def distance_from_points_def broadcast_mul_def power_alpha_def
  sqrt_100 seed_step_def numba_rand_choice_def probabilities_of_def cumsum_def
  searchsorted_def clip01_def take_rows_def potentials_def np_argmin_def
  assign_update_def np_argmin_axis1_def distance_from_points_fl_def
  distance_from_point_fl_def fl_sum_def fl_sub_def new_centroid_def bool_index_def
  fl_div_def allclose_def Let_def eval_nat_numeral upt_rec

lemma counter_rng_ok: "rng_ok counter_rng"
  by (simp add: rng_ok_def counter_rng_def)

subsection \<open>The weight substitution\<close>

lemma all_zero_replicate_0: "all_zero (replicate n 0)"
  by (simp add: all_zero_def list_all_iff)

lemma ones_like_replicate: "ones_like (replicate n x) = replicate n 1"
  by (simp add: ones_like_def)

lemma subst_weights:
  "(if all_zero (replicate n 0) then ones_like (replicate n 0) else replicate n 0)
   = (if all_zero (replicate n 1) then ones_like (replicate n 1) else replicate n 1)"
  by (simp add: all_zero_replicate_0 ones_like_replicate)

subsection \<open>The sampler\<close>











subsection \<open>Distances\<close>


lemma distance_from_point_nth:
  "i < length X \<Longrightarrow> distance_from_point X p ! i
     = sqrt (sum_list (map (\<lambda>d. d ^ 2) (map2 (-) (X ! i) p)))"
  by (simp add: distance_from_point_def)

lemma distance_from_points_length: "length (distance_from_points X ps) = length X"
  by (simp add: distance_from_points_def)


lemma distance_from_point_fl_length: "length (distance_from_point_fl X p) = length X"
  by (simp add: distance_from_point_fl_def)



subsection \<open>argmin\<close>





subsection \<open>The probability vector\<close>



lemma clip01_range: "0 \<le> clip01 x \<and> clip01 x \<le> 1"
  by (simp add: clip01_def)






lemma probabilities_of_nonneg:
  assumes "p \<in> set (probabilities_of da)"
  shows "0 \<le> p"
proof -
  define da1 where "da1 = (if sum_list da = 0 then ones_like da else da)"
  define s where "s = sum_list da1"
  define p0 where "p0 = map (\<lambda>a. clip01 (a / s)) da1"
  have nn: "\<forall>x\<in>set p0. 0 \<le> x" unfolding p0_def using clip01_range by auto
  then have "0 \<le> sum_list p0" by (simp add: sum_list_nonneg)
  moreover have "probabilities_of da = map (\<lambda>p. p / sum_list p0) p0"
    by (simp add: probabilities_of_def Let_def da1_def s_def p0_def)
  ultimately show ?thesis using assms nn by auto
qed

subsection \<open>One seeding step\<close>






subsection \<open>The seeding loop and the seeder\<close>



lemma substituted_weights_length:
  "length (if all_zero w then ones_like w else w) = length w"
  by (simp add: ones_like_def)

lemma n_features_rows:
  "X \<noteq> [] \<Longrightarrow> \<forall>row\<in>set X. length row = D \<Longrightarrow> n_features X = D"
  by (cases X) (simp_all add: n_features_def)

lemma randint_ok:
  "rng_ok G \<Longrightarrow> 0 < n \<Longrightarrow>
     randint G n g = Inr (rng_randint G n g) \<and> fst (rng_randint G n g) < n"
  by (simp add: randint_def rng_ok_def)


subsection \<open>The Assign phase\<close>


subsection \<open>The Update phase\<close>

lemma new_centroid_empty:
  assumes "rng_ok G" "X \<noteq> []" "k \<notin> set new_labels"
  shows "new_centroid G X w new_labels k g
           = Inr (map Fin (X ! fst (rng_randint G (length X) g)),
                  snd (rng_randint G (length X) g))"
    and "fst (rng_randint G (length X) g) < length X"
proof -
  have N: "0 < length X" using assms(2) by simp
  from randint_ok[OF assms(1) N, of g]
  show "fst (rng_randint G (length X) g) < length X" by simp
  have "\<not> list_ex (\<lambda>b. b) (map (\<lambda>l. l = k) new_labels)"
    using assms(3) by (auto simp: list_ex_iff)
  then show "new_centroid G X w new_labels k g
           = Inr (map Fin (X ! fst (rng_randint G (length X) g)),
                  snd (rng_randint G (length X) g))"
    using randint_ok[OF assms(1) N, of g]
    by (simp add: new_centroid_def Let_def split: prod.splits)
qed

lemma new_centroid_shape:
  assumes ok: "rng_ok G" and ne: "X \<noteq> []" and rows: "\<forall>row\<in>set X. length row = D"
    and w: "length w = length X" and l: "length new_labels = length X"
  shows "\<exists>row g'. new_centroid G X w new_labels k g = Inr (row, g') \<and> length row = D"
proof (cases "k \<in> set new_labels")
  case True
  then have "list_ex (\<lambda>b. b) (map (\<lambda>l. l = k) new_labels)"
    by (auto simp: list_ex_iff)
  then show ?thesis
    using w l n_features_rows[OF ne rows]
    by (simp add: new_centroid_def Let_def bool_index_def)
next
  case False
  from new_centroid_empty(1)[OF ok ne False, of w g] new_centroid_empty(2)[OF ok ne False, of g]
    rows
  show ?thesis by (auto simp: nth_mem)
qed

text \<open>
  The loop keeps the number of rows, leaves the rows outside \<open>ks\<close> alone, and each row
  \<open>k\<close> it writes is what \<open>new_centroid\<close> returned for \<open>k\<close> at the generator state the loop
  had reached.
\<close>

lemma update_loop_rows:
  assumes "update_loop G X w labels ks nc g = Inr (nc', g')"
    and "distinct ks" and "\<forall>k\<in>set ks. k < length nc"
  shows "length nc' = length nc
         \<and> (\<forall>j<length nc. j \<notin> set ks \<longrightarrow> nc' ! j = nc ! j)
         \<and> (\<forall>k\<in>set ks. \<exists>g0 g1. new_centroid G X w labels k g0 = Inr (nc' ! k, g1))"
  using assms
proof (induction ks arbitrary: nc g)
  case Nil
  then show ?case by simp
next
  case (Cons k ks)
  from Cons.prems(1) obtain row g1 where
    nc1: "new_centroid G X w labels k g = Inr (row, g1)"
    and rest: "update_loop G X w labels ks (nc[k := row]) g1 = Inr (nc', g')"
    by (auto split: sum.splits)
  have d: "distinct ks" and kk: "k \<notin> set ks" using Cons.prems(2) by simp_all
  have b: "\<forall>k'\<in>set ks. k' < length (nc[k := row])" using Cons.prems(3) by simp
  from Cons.IH[OF rest d b]
  have len: "length nc' = length nc"
    and keep: "\<forall>j<length nc. j \<notin> set ks \<longrightarrow> nc' ! j = nc[k := row] ! j"
    and wr: "\<forall>k'\<in>set ks. \<exists>g0 g1. new_centroid G X w labels k' g0 = Inr (nc' ! k', g1)"
    by simp_all
  have klt: "k < length nc" using Cons.prems(3) by simp
  have "nc' ! k = row" using keep klt kk by simp
  with nc1 have "\<exists>g0 g1. new_centroid G X w labels k g0 = Inr (nc' ! k, g1)" by blast
  moreover have "\<forall>j<length nc. j \<notin> set (k # ks) \<longrightarrow> nc' ! j = nc ! j"
    using keep by auto
  ultimately show ?case using len wr by simp
qed

lemma update_loop_succeeds:
  assumes "\<And>k g. \<exists>row g'. new_centroid G X w labels k g = Inr (row, g')"
  shows "\<exists>nc' g'. update_loop G X w labels ks nc g = Inr (nc', g')"
proof (induction ks arbitrary: nc g)
  case Nil
  then show ?case by simp
next
  case (Cons k ks)
  from assms[of k g] obtain row g1 where
    "new_centroid G X w labels k g = Inr (row, g1)" by blast
  with Cons.IH[of "nc[k := row]" g1] show ?case by simp
qed

lemma update_phase_shape:
  assumes ok: "rng_ok G" and ne: "X \<noteq> []" and rows: "\<forall>row\<in>set X. length row = D"
    and w: "length w = length X" and l: "length labels = length X"
  shows "\<exists>nc g'. update_loop G X w labels [0..<length cs] cs g = Inr (nc, g')
           \<and> length nc = length cs \<and> (\<forall>row\<in>set nc. length row = D)"
proof -
  have "\<exists>nc g'. update_loop G X w labels [0..<length cs] cs g = Inr (nc, g')"
    by (rule update_loop_succeeds) (use new_centroid_shape[OF ok ne rows w l] in blast)
  then obtain nc g' where u: "update_loop G X w labels [0..<length cs] cs g = Inr (nc, g')"
    by blast
  from update_loop_rows[OF u]
  have len: "length nc = length cs"
    and wr: "\<forall>k\<in>set [0..<length cs]. \<exists>g0 g1. new_centroid G X w labels k g0 = Inr (nc ! k, g1)"
    by simp_all
  have "\<forall>row\<in>set nc. length row = D"
  proof
    fix row assume "row \<in> set nc"
    then obtain k where k: "k < length nc" "row = nc ! k" by (auto simp: in_set_conv_nth)
    from k(1) len have "k \<in> set [0..<length cs]" by simp
    with wr k(2) obtain g0 g1 where e: "new_centroid G X w labels k g0 = Inr (row, g1)"
      by blast
    from new_centroid_shape[OF ok ne rows w l, of k g0] e show "length row = D" by simp
  qed
  with u len show ?thesis by blast
qed

subsection \<open>The main loop\<close>




subsection \<open>Where invalid input is caught\<close>











subsection \<open>Rescaling the weights, in exact arithmetic\<close>

lemma all_zero_scale: "c \<noteq> 0 \<Longrightarrow> all_zero (map ((*) c) w) = all_zero w"
  by (simp add: all_zero_def list_all_iff)

lemma ones_like_map: "ones_like (map f w) = ones_like w"
  by (simp add: ones_like_def)

lemma broadcast_mul_scale:
  "broadcast_mul xs (map ((*) c) ys) = map_sum id (map ((*) c)) (broadcast_mul xs ys)"
proof (cases "length xs = length ys")
  case True
  have "map2 (*) xs (map ((*) c) ys) = map ((*) c) (map2 (*) xs ys)"
    by (rule nth_equalityI) (simp_all add: True)
  with True show ?thesis by (simp add: broadcast_mul_def)
next
  case False
  show ?thesis
  proof (cases "length xs = 1")
    case True
    with False show ?thesis by (simp add: broadcast_mul_def comp_def)
  next
    case x: False
    show ?thesis
    proof (cases "length ys = 1")
      case True
      then have "hd (map ((*) c) ys) = c * hd ys" by (cases ys) simp_all
      with False x True show ?thesis by (simp add: broadcast_mul_def comp_def)
    next
      case y: False
      with False x show ?thesis by (simp add: broadcast_mul_def)
    qed
  qed
qed

lemma sum_list_scale: "sum_list (map ((*) c) xs) = c * sum_list (xs :: real list)"
  by (induction xs) (simp_all add: algebra_simps)

lemma probabilities_of_scale:
  assumes "c \<noteq> 0"
  shows "probabilities_of (map ((*) c) da) = probabilities_of da"
proof (cases "sum_list da = 0")
  case True
  then show ?thesis
    by (simp add: probabilities_of_def sum_list_scale ones_like_map Let_def)
next
  case False
  define p where "p = map (\<lambda>a. clip01 (a / sum_list da)) da"
  have eq: "map (\<lambda>a. clip01 (a / (c * sum_list da))) (map ((*) c) da) = p"
    using assms by (simp add: comp_def p_def)
  have nz: "sum_list (map ((*) c) da) \<noteq> 0" using False assms by (simp add: sum_list_scale)
  have l: "probabilities_of (map ((*) c) da) = map (\<lambda>q. q / sum_list p) p"
    unfolding probabilities_of_def Let_def using nz
    by (simp only: if_False sum_list_scale eq)
  have r: "probabilities_of da = map (\<lambda>q. q / sum_list p) p"
    unfolding probabilities_of_def Let_def using False
    by (simp only: if_False p_def)
  from l r show ?thesis by simp
qed

lemma scale_case:
  "(case map_sum id (map ((*) c)) r of
      Inl e \<Rightarrow> Inl e | Inr da' \<Rightarrow> Inr (a, b, da', g'))
   = map_sum id (scale_state c)
       (case r of Inl e \<Rightarrow> Inl e | Inr da' \<Rightarrow> Inr (a, b, da', g'))"
  by (cases r) (simp_all add: scale_state_def)

lemma seed_step_scale:
  assumes "c \<noteq> 0"
  shows "seed_step G X (map ((*) c) w) alpha L (scale_state c st) k
         = map_sum id (scale_state c) (seed_step G X w alpha L st k)"
proof -
  obtain cs ds da g where st: "st = (cs, ds, da, g)" by (cases st)
  obtain idxs g' where ch: "numba_rand_choice G L (probabilities_of da) g = (idxs, g')"
    by (cases "numba_rand_choice G L (probabilities_of da) g")
  show ?thesis
  proof (cases "take_rows X idxs")
    case (Inl e)
    with ch show ?thesis
      by (simp add: st scale_state_def seed_step_def probabilities_of_scale[OF assms])
  next
    case tr: (Inr cands)
    show ?thesis
    proof (cases "np_argmin (map Fin (potentials X ds cands))")
      case (Inl e)
      with ch tr show ?thesis
        by (simp add: st scale_state_def seed_step_def probabilities_of_scale[OF assms])
    next
      case am: (Inr j)
      have l: "seed_step G X (map ((*) c) w) alpha L (scale_state c st) k
            = (case map_sum id (map ((*) c))
                 (broadcast_mul (map (power_alpha alpha)
                    (map2 min ds (distance_from_point X (cs[k := cands ! j] ! k)))) w) of
                 Inl e \<Rightarrow> Inl e
               | Inr da' \<Rightarrow> Inr (cs[k := cands ! j],
                   map2 min ds (distance_from_point X (cs[k := cands ! j] ! k)), da', g'))"
        using ch tr am
        by (simp add: st scale_state_def seed_step_def probabilities_of_scale[OF assms]
            Let_def broadcast_mul_scale del: map_map)
      have r: "seed_step G X w alpha L st k
            = (case broadcast_mul (map (power_alpha alpha)
                    (map2 min ds (distance_from_point X (cs[k := cands ! j] ! k)))) w of
                 Inl e \<Rightarrow> Inl e
               | Inr da' \<Rightarrow> Inr (cs[k := cands ! j],
                   map2 min ds (distance_from_point X (cs[k := cands ! j] ! k)), da', g'))"
        using ch tr am by (simp add: st seed_step_def Let_def del: map_map)
      show ?thesis unfolding l r by (rule scale_case)
    qed
  qed
qed

lemma seed_loop_scale:
  assumes "c \<noteq> 0"
  shows "seed_loop G X (map ((*) c) w) alpha L ks (scale_state c st)
         = map_sum id (scale_state c) (seed_loop G X w alpha L ks st)"
proof (induction ks arbitrary: st)
  case Nil
  then show ?case by simp
next
  case (Cons k ks)
  show ?case
  proof (cases "seed_step G X w alpha L st k")
    case (Inl e)
    then show ?thesis by (simp add: seed_step_scale[OF assms])
  next
    case (Inr st')
    then show ?thesis by (simp add: seed_step_scale[OF assms] Cons.IH)
  qed
qed

lemma kmeans_plusplus_scale:
  assumes c: "c \<noteq> 0"
  shows "kmeans_plusplus G X (map ((*) c) w) K alpha g = kmeans_plusplus G X w K alpha g"
proof (cases "all_zero w")
  case True
  then have e: "(if all_zero (map ((*) c) w) then ones_like (map ((*) c) w) else map ((*) c) w)
                = (if all_zero w then ones_like w else w)"
    by (simp add: all_zero_scale[OF c] ones_like_map)
  show ?thesis unfolding kmeans_plusplus_def e by simp
next
  case nz: False
  show ?thesis
  proof (cases "n_local_trials K")
    case (Inl e)
    then show ?thesis by (simp add: kmeans_plusplus_def)
  next
    case nl: (Inr L)
    show ?thesis
    proof (cases "randint G (length X) g")
      case (Inl e)
      with nl show ?thesis by (simp add: kmeans_plusplus_def Let_def)
    next
      case (Inr p)
      obtain first g1 where p: "p = (first, g1)" by (cases p)
      let ?cs0 = "(replicate (nat K) (replicate (n_features X) (0::real)))[0 := X ! first]"
      let ?ds = "distance_from_point X (?cs0 ! 0)"
      note ri = Inr[unfolded p]
      have l: "kmeans_plusplus G X (map ((*) c) w) K alpha g
            = (case map_sum id (map ((*) c)) (broadcast_mul (map (power_alpha alpha) ?ds) w) of
                 Inl e \<Rightarrow> Inl e
               | Inr da \<Rightarrow>
                   (case seed_loop G X (map ((*) c) w) alpha L [1..<nat K] (?cs0, ?ds, da, g1) of
                      Inl e \<Rightarrow> Inl e | Inr (cs, _, _, g2) \<Rightarrow> Inr (cs, g2)))"
        using nl ri nz
        by (simp add: kmeans_plusplus_def Let_def all_zero_scale[OF c] broadcast_mul_scale del: map_map)
      have r: "kmeans_plusplus G X w K alpha g
            = (case broadcast_mul (map (power_alpha alpha) ?ds) w of
                 Inl e \<Rightarrow> Inl e
               | Inr da \<Rightarrow>
                   (case seed_loop G X w alpha L [1..<nat K] (?cs0, ?ds, da, g1) of
                      Inl e \<Rightarrow> Inl e | Inr (cs, _, _, g2) \<Rightarrow> Inr (cs, g2)))"
        using nl ri nz
        by (simp add: kmeans_plusplus_def Let_def del: map_map)
      show ?thesis
      proof (cases "broadcast_mul (map (power_alpha alpha) ?ds) w")
        case (Inl e)
        then show ?thesis unfolding l r by simp
      next
        case bm: (Inr da)
        have sl: "seed_loop G X (map ((*) c) w) alpha L [1..<nat K] (?cs0, ?ds, map ((*) c) da, g1)
              = map_sum id (scale_state c) (seed_loop G X w alpha L [1..<nat K] (?cs0, ?ds, da, g1))"
          using seed_loop_scale[OF c, of G X w alpha L "[1..<nat K]" "(?cs0, ?ds, da, g1)"]
          by (simp add: scale_state_def)
        show ?thesis
        proof (cases "seed_loop G X w alpha L [1..<nat K] (?cs0, ?ds, da, g1)")
          case (Inl e)
          with bm sl show ?thesis unfolding l r by simp
        next
          case (Inr st)
          obtain cs1 ds1 da1 g2 where st: "st = (cs1, ds1, da1, g2)" by (cases st)
          with Inr bm sl show ?thesis unfolding l r by (simp add: scale_state_def)
        qed
      qed
    qed
  qed
qed

lemma fl_div_scale: "0 < c \<Longrightarrow> fl_div (c * a) (c * b) = fl_div a b"
  by (simp add: fl_div_def zero_less_mult_iff)

lemma bool_index_map:
  "bool_index (map f xs) m = map_sum id (map f) (bool_index xs m)"
proof (cases "length xs = length m")
  case True
  then have "map fst (filter snd (zip (map f xs) m)) = map f (map fst (filter snd (zip xs m)))"
    by (induction xs m rule: list_induct2) simp_all
  with True show ?thesis by (simp add: bool_index_def)
next
  case False
  then show ?thesis by (simp add: bool_index_def)
qed

lemma weighted_sum_scale:
  "sum_list (map2 (\<lambda>p w. p ! d * w) ps (map ((*) c) ws))
     = c * sum_list (map2 (\<lambda>p w. (p ! d * w :: real)) ps ws)"
proof (induction ps arbitrary: ws)
  case Nil
  then show ?case by simp
next
  case (Cons p ps)
  then show ?case by (cases ws) (simp_all add: algebra_simps)
qed

lemma new_centroid_scale:
  assumes c: "0 < c"
  shows "new_centroid G X (map ((*) c) w) labels k g = new_centroid G X w labels k g"
proof (cases "list_ex (\<lambda>b. b) (map (\<lambda>l. l = k) labels)")
  case False
  then show ?thesis by (simp add: new_centroid_def Let_def)
next
  case True
  show ?thesis
  proof (cases "bool_index X (map (\<lambda>l. l = k) labels)")
    case (Inl e)
    with True show ?thesis by (simp add: new_centroid_def Let_def)
  next
    case pts: (Inr cluster_points)
    show ?thesis
    proof (cases "bool_index w (map (\<lambda>l. l = k) labels)")
      case (Inl e)
      with True pts show ?thesis by (simp add: new_centroid_def Let_def bool_index_map)
    next
      case (Inr cluster_weights)
      with True pts show ?thesis
        by (simp add: new_centroid_def Let_def bool_index_map weighted_sum_scale
            sum_list_scale fl_div_scale[OF c])
    qed
  qed
qed

lemma update_loop_scale:
  assumes c: "0 < c"
  shows "update_loop G X (map ((*) c) w) labels ks nc g = update_loop G X w labels ks nc g"
  by (induction ks arbitrary: nc g)
    (simp_all add: new_centroid_scale[OF c] split: sum.splits prod.splits)

lemma assign_update_scale:
  "0 < c \<Longrightarrow> assign_update G X (map ((*) c) w) K cs g = assign_update G X w K cs g"
  by (simp add: assign_update_def update_loop_scale split: sum.splits prod.splits)

lemma lloyd_scale:
  assumes c: "0 < c"
  shows "lloyd G X (map ((*) c) w) K n cs labels g = lloyd G X w K n cs labels g"
  by (induction n arbitrary: cs labels g)
    (simp_all add: assign_update_scale[OF c] split: sum.splits prod.splits)

section \<open>The claims\<close>

text \<open>
  C1 (the code departs from it). The claim: when the convergence test passes, the call
  returns the new centroids of that Update phase with the labels of the Assign phase of
  the same iteration. The \<open>break\<close> precedes the two assignments, so the call returns
  the centroids and labels of the iteration before. On the two points \<open>0\<close> and \<open>10\<close>
  with two clusters the first iteration already converges, and the labels returned are
  the initial zeros, whichever point the seeder drew first, where the Assign phase had
  put the two points in different clusters.
\<close>

theorem kmeans_break_returns_previous_labels:
  "kmeans counter_rng 0 [[0], [10]] [1, 1] 2 100 2 (Some 0)
     = Inr ([[Fin 0], [Fin 10]], [0, 0])
   \<and> np_argmin_axis1 (distance_from_points_fl [[0], [10]] [[Fin 0], [Fin 10]]) = Inr [0, 1]
   \<and> kmeans counter_rng 0 [[0], [10]] [1, 1] 2 100 2 (Some 1)
     = Inr ([[Fin 10], [Fin 0]], [0, 0])
   \<and> np_argmin_axis1 (distance_from_points_fl [[0], [10]] [[Fin 10], [Fin 0]]) = Inr [1, 0]"
  by (simp add: run_defs)




text \<open>
  C3, as stated, fails: without a seed the result depends on the generator state that
  earlier calls left behind, and the call leaves the generator advanced.
\<close>

theorem kmeans_depends_on_generator_state:
  "kmeans_st counter_rng 0 [[0], [10]] [1, 1] 2 100 2 None
     = Inr (([[Fin 0], [Fin 10]], [0, 0]), 3)
   \<and> kmeans_st counter_rng 1 [[0], [10]] [1, 1] 2 100 2 None
     = Inr (([[Fin 10], [Fin 0]], [0, 0]), 4)"
  by (simp add: run_defs)

text \<open>
  C3, amended: the process-wide generator is the one piece of state the call shares with
  other calls. A call with a seed is the call without a seed started from the generator
  state that the seed determines, whatever the state before.
\<close>

theorem kmeans_seeded_is_unseeded_from_seed_state:
  "kmeans_st G g X weights n_clusters max_iter alpha (Some s)
     = kmeans_st G (rng_seed G s) X weights n_clusters max_iter alpha None"
  by (simp add: kmeans_st_def)

text \<open>
  C5: an all-zero weight vector gives the result of the all-ones vector of the same
  length, for the entry point and for the seeder called alone, since both substitute
  the weights before they use them.
\<close>

theorem kmeans_zero_weights_as_ones:
  "kmeans G g X (replicate n 0) n_clusters max_iter alpha random_state
     = kmeans G g X (replicate n 1) n_clusters max_iter alpha random_state
   \<and> kmeans_plusplus G X (replicate n 0) n_clusters alpha g
     = kmeans_plusplus G X (replicate n 1) n_clusters alpha g"
  unfolding kmeans_def kmeans_st_def kmeans_plusplus_def subst_weights by simp

text \<open>
  C6: two calls with the same inputs and the same seed return the same centroids and
  labels, whatever state the generator was in before each call.
\<close>

theorem kmeans_reproducible:
  "kmeans G g1 X weights n_clusters max_iter alpha (Some s)
     = kmeans G g2 X weights n_clusters max_iter alpha (Some s)"
  by (simp add: kmeans_def kmeans_st_def)



text \<open>
  C7: in the Update phase a cluster without members is no error. Its new centroid is the
  point of the full point set at the index drawn by \<open>randint(0, n_samples)\<close>, and the
  phase ends with as many centroid rows as before, each of \<open>D\<close> columns, the row of
  the empty cluster being a row of the point set (so finite).
\<close>

theorem empty_cluster_reseeded:
  assumes ok: "rng_ok G" and ne: "X \<noteq> []" and rows: "\<forall>row\<in>set X. length row = D"
    and w: "length weights = length X" and l: "length new_labels = length X"
    and k: "k < length centroids" and empty: "k \<notin> set new_labels"
  shows "new_centroid G X weights new_labels k g
           = Inr (map Fin (X ! fst (rng_randint G (length X) g)),
                  snd (rng_randint G (length X) g))
         \<and> fst (rng_randint G (length X) g) < length X
         \<and> (\<exists>new_centroids g'.
               update_loop G X weights new_labels [0..<length centroids] centroids g
                 = Inr (new_centroids, g')
               \<and> length new_centroids = length centroids
               \<and> (\<forall>row\<in>set new_centroids. length row = D)
               \<and> new_centroids ! k \<in> set (map (map Fin) X))"
proof -
  note e = new_centroid_empty[OF ok ne empty]
  from update_phase_shape[OF ok ne rows w l, of centroids g]
  obtain nc g' where
    u: "update_loop G X weights new_labels [0..<length centroids] centroids g = Inr (nc, g')"
    and s: "length nc = length centroids" "\<forall>row\<in>set nc. length row = D"
    by blast
  have kin: "k \<in> set [0..<length centroids]" using k by simp
  from update_loop_rows[OF u]
  have "\<forall>k\<in>set [0..<length centroids].
          \<exists>g0 g1. new_centroid G X weights new_labels k g0 = Inr (nc ! k, g1)"
    by simp
  with kin obtain g0 g1 where "new_centroid G X weights new_labels k g0 = Inr (nc ! k, g1)"
    by blast
  with e(1)[of weights g0] have "nc ! k = map Fin (X ! fst (rng_randint G (length X) g0))"
    by simp
  moreover have "fst (rng_randint G (length X) g0) < length X" by (rule e(2))
  ultimately have "nc ! k \<in> set (map (map Fin) X)" by simp
  with u s e(1)[of weights g] e(2)[of g] show ?thesis by blast
qed

theorem empty_cluster_reseeded_witness:
  "rng_ok counter_rng \<and> [[0], [10 :: real]] \<noteq> []
   \<and> list_all (\<lambda>row. length row = 1) [[0], [10 :: real]]
   \<and> length [1, 1 :: real] = length [[0], [10 :: real]]
   \<and> length [0, 0 :: nat] = length [[0], [10 :: real]]
   \<and> (1::nat) < length [[Fin 0], [Fin 0]] \<and> (1::nat) \<notin> set [0, 0]
   \<and> new_centroid counter_rng [[0], [10]] [1, 1] [0, 0] 1 0 = Inr ([Fin 0], 1)
   \<and> update_loop counter_rng [[0], [10]] [1, 1] [0, 0] [0..<2] [[Fin 0], [Fin 0]] 0
        = Inr ([[Fin 5], [Fin 0]], 1)"
proof -
  have h2: "[[0], [10 :: real]] \<noteq> []" by simp
  have h3: "\<forall>row\<in>set [[0], [10 :: real]]. length row = 1" by simp
  have h4: "length [1, 1 :: real] = length [[0], [10 :: real]]" by simp
  have h5: "length [0, 0 :: nat] = length [[0], [10 :: real]]" by simp
  have h6: "(1::nat) < length [[Fin 0], [Fin 0]]" by simp
  have h7: "(1::nat) \<notin> set [0, 0]" by simp
  note c = empty_cluster_reseeded[OF counter_rng_ok h2 h3 h4 h5 h6 h7, of 0]
  have r: "rng_randint counter_rng (length [[0], [10 :: real]]) 0 = (0, 1)"
    by (simp add: counter_rng_def)
  from c have nc: "new_centroid counter_rng [[0], [10]] [1, 1] [0, 0] 1 0 = Inr ([Fin 0], 1)"
    unfolding r by simp
  have ul: "update_loop counter_rng [[0], [10]] [1, 1] [0, 0] [0..<2] [[Fin 0], [Fin 0]] 0
        = Inr ([[Fin 5], [Fin 0]], 1)"
    by (simp add: new_centroid_def bool_index_def fl_div_def n_features_def randint_def
        counter_rng_def Let_def upt_rec eval_nat_numeral)
  show ?thesis
    apply (intro conjI)
            apply (rule counter_rng_ok)
           apply (rule h2)
          apply simp
         apply (rule h4)
        apply (rule h5)
       apply (rule h6)
      apply (rule h7)
     apply (rule nc)
    apply (rule ul)
    done
qed



text \<open>
  C9: multiplying every weight by the same positive constant changes neither the
  centroids nor the labels returned. This is a statement of exact arithmetic, as the
  whole embedding is: the ratios of the scores and the weighted means do not change.
  Rounding is not modelled; on float64 arrays the two runs agree up to rounding only.
\<close>

theorem kmeans_weight_scale_invariant:
  assumes c: "0 < c"
  shows "kmeans G g X (map ((*) c) w) K max_iter alpha random_state
         = kmeans G g X w K max_iter alpha random_state"
proof -
  from c have c0: "c \<noteq> 0" by simp
  show ?thesis
  proof (cases "all_zero w")
    case True
    then have e: "(if all_zero (map ((*) c) w) then ones_like (map ((*) c) w) else map ((*) c) w)
                  = (if all_zero w then ones_like w else w)"
      by (simp add: all_zero_scale[OF c0] ones_like_map)
    show ?thesis unfolding kmeans_def kmeans_st_def e by simp
  next
    case False
    then show ?thesis
      by (simp add: kmeans_def kmeans_st_def all_zero_scale[OF c0] Let_def
          kmeans_plusplus_scale[OF c0] lloyd_scale[OF c] split: sum.splits prod.splits)
  qed
qed

theorem kmeans_weight_scale_invariant_witness:
  "(0::real) < 2
   \<and> kmeans counter_rng 0 [[0], [10]] (map ((*) 2) [1, 3]) 1 100 2 (Some 0)
       = kmeans counter_rng 0 [[0], [10]] [1, 3] 1 100 2 (Some 0)
   \<and> kmeans counter_rng 0 [[0], [10]] [1, 3] 1 100 2 (Some 0)
       = Inr ([[Fin (15 / 2)]], [0, 0])"
proof -
  have h: "(0::real) < 2" by simp
  note c = kmeans_weight_scale_invariant[OF h, of counter_rng 0 "[[0], [10]]" "[1, 3]" 1 100 2
      "Some 0"]
  have ev: "kmeans counter_rng 0 [[0], [10]] [1, 3] 1 100 2 (Some 0)
       = Inr ([[Fin (15 / 2)]], [0, 0])"
    by (simp add: run_defs)
  show ?thesis
    apply (intro conjI)
      apply (rule h)
     apply (rule c)
    apply (rule ev)
    done
qed



end
